theory Spec2Isabelle
  imports Complex_Main
begin

section \<open>Python strings\<close>

text \<open>
  A Python \<open>str\<close> is modelled as a \<open>string\<close>; the characters of the model are the code
  points below 256. \<open>is_space\<close> is \<open>str.isspace\<close> on those code points, which is also what
  the class \<open>\s\<close> of the \<open>re\<close> module accepts: TAB to CR, the separators FS to US, the
  space, NEL and the no-break space.
\<close>

definition is_space :: "char \<Rightarrow> bool" where
  "is_space c =
     (let n = (of_char c :: nat)
      in (9 \<le> n \<and> n \<le> 13) \<or> (28 \<le> n \<and> n \<le> 32) \<or> n = 133 \<or> n = 160)"

text \<open>\<open>s.strip()\<close>: leading and trailing whitespace removed.\<close>

definition strip :: "string \<Rightarrow> string" where
  "strip s = rev (dropWhile is_space (rev (dropWhile is_space s)))"

text \<open>\<open>s.replace(c, '')\<close> for a one-character \<open>c\<close>.\<close>

definition remove_char :: "char \<Rightarrow> string \<Rightarrow> string" where
  "remove_char c s = filter (\<lambda>x. x \<noteq> c) s"

text \<open>\<open>s.startswith(d)\<close>.\<close>

definition starts_with :: "string \<Rightarrow> string \<Rightarrow> bool" where
  "starts_with d s = (take (length d) s = d)"

text \<open>\<open>sep.join(parts)\<close>.\<close>

fun join :: "string \<Rightarrow> string list \<Rightarrow> string" where
  "join sep [] = []"
| "join sep [x] = x"
| "join sep (x # y # ys) = x @ sep @ join sep (y # ys)"

text \<open>\<open>str(n)\<close> for a non-negative integer: its decimal digits.\<close>

fun str_nat :: "nat \<Rightarrow> string" where
  "str_nat n =
     (if n < 10 then [''0123456789'' ! n]
      else str_nat (n div 10) @ [''0123456789'' ! (n mod 10)])"


text \<open>
  \<open>s.lower()\<close>: the letters A to Z and the upper-case letters of Latin-1 (all of
  0xC0 to 0xDE but the multiplication sign 0xD7) move up by 32.
\<close>

definition lower_char :: "char \<Rightarrow> char" where
  "lower_char c =
     (let n = (of_char c :: nat)
      in if (65 \<le> n \<and> n \<le> 90) \<or> (192 \<le> n \<and> n \<le> 222 \<and> n \<noteq> 215)
         then char_of (n + 32) else c)"

definition lower :: "string \<Rightarrow> string" where
  "lower s = map lower_char s"

section \<open>Regular-expression substitution\<close>

text \<open>
  \<open>re.sub(pattern, repl, s)\<close> scans \<open>s\<close> from the left. At each position it tries the
  pattern; on a match it writes the replacement and goes on behind the match, otherwise it
  copies one character and moves one position on. A pattern is given here by its matcher:
  from the character before the position (\<open>None\<close> at the start of the string; the anchor
  \<open>^\<close> needs it) and the rest of the string, the replacement text and the number of
  characters the match takes. An empty match writes the replacement and copies the next
  character.
\<close>

type_synonym matcher = "char option \<Rightarrow> string \<Rightarrow> (string \<times> nat) option"

fun re_sub :: "matcher \<Rightarrow> char option \<Rightarrow> string \<Rightarrow> string" where
  "re_sub m prev [] = (case m prev [] of None \<Rightarrow> [] | Some (r, _) \<Rightarrow> r)"
| "re_sub m prev (x # xs) =
     (case m prev (x # xs) of
        None \<Rightarrow> x # re_sub m (Some x) xs
      | Some (r, 0) \<Rightarrow> r @ x # re_sub m (Some x) xs
      | Some (r, Suc n) \<Rightarrow> r @ re_sub m (Some (last (take (Suc n) (x # xs)))) (drop n xs))"

text \<open>
  The position of the first closing fence in a string: the least \<open>k\<close> such that the string
  has three backquotes at \<open>k\<close>. It is where the lazy \<open>[\s\S]*?\<close> stops.
\<close>

fun find_fence :: "string \<Rightarrow> nat option" where
  "find_fence [] = None"
| "find_fence (x # xs) =
     (if starts_with ''```'' (x # xs) then Some 0 else map_option Suc (find_fence xs))"

text \<open>The pattern \<open>```[\s\S]*?```\<close> with the replacement \<open>''\<close>.\<close>

definition m_fence :: matcher where
  "m_fence prev s =
     (if starts_with ''```'' s then
        (case find_fence (drop 3 s) of
           None \<Rightarrow> None
         | Some k \<Rightarrow> Some ([], 3 + k + 3))
      else None)"

text \<open>
  The patterns \<open>\*\*([^\*]+)\*\*\<close>, \<open>\*([^\*]+)\*\<close>, \<open>__([^_]+)__\<close> and \<open>_([^_]+)_\<close> with the
  replacement \<open>\1\<close>: the delimiter is \<open>k\<close> copies of the character \<open>c\<close>, and the group is
  the longest run of other characters behind it, which must not be empty and must be
  followed by the delimiter. The greedy \<open>+\<close> has nothing to give back: a shorter run is
  followed by a character that is not \<open>c\<close>.
\<close>

definition m_delim :: "char \<Rightarrow> nat \<Rightarrow> matcher" where
  "m_delim c k prev s =
     (let d = replicate k c in
      if starts_with d s then
        (let rest = drop k s;
             g = takeWhile (\<lambda>x. x \<noteq> c) rest;
             after = dropWhile (\<lambda>x. x \<noteq> c) rest
         in if g \<noteq> [] \<and> starts_with d after then Some (g, k + length g + k) else None)
      else None)"

text \<open>
  The pattern \<open>^#+\s+\<close> under \<open>re.MULTILINE\<close> with the replacement \<open>''\<close>: at the start of
  the string or behind a line feed, all the hash signs and all the whitespace behind them,
  at least one of each.
\<close>

definition m_header :: matcher where
  "m_header prev s =
     (if prev = None \<or> prev = Some (CHR 0x0A) then
        (let hs = takeWhile (\<lambda>x. x = CHR ''#'') s;
             ws = takeWhile is_space (dropWhile (\<lambda>x. x = CHR ''#'') s)
         in if hs \<noteq> [] \<and> ws \<noteq> [] then Some ([], length hs + length ws) else None)
      else None)"

text \<open>
  The pattern \<open>\[([^\]]+)\]\([^\)]+\)\<close> with the replacement \<open>\1\<close>: an opening bracket, the
  longest run without a closing bracket (the group, not empty), \<open>](\<close>, the longest run
  without a closing parenthesis (not empty) and the closing parenthesis.
\<close>

definition m_link :: matcher where
  "m_link prev s =
     (if starts_with ''['' s then
        (let r = drop 1 s;
             t = takeWhile (\<lambda>x. x \<noteq> CHR '']'') r;
             r2 = dropWhile (\<lambda>x. x \<noteq> CHR '']'') r
         in if t \<noteq> [] \<and> starts_with ''](''  r2 then
              (let r3 = drop 2 r2;
                   u = takeWhile (\<lambda>x. x \<noteq> CHR '')'') r3;
                   r4 = dropWhile (\<lambda>x. x \<noteq> CHR '')'') r3
               in if u \<noteq> [] \<and> r4 \<noteq> [] then Some (t, 1 + length t + 2 + length u + 1)
                  else None)
            else None)
      else None)"

text \<open>
  The clean-up of the generated answer in \<open>query_rag\<close> (the seven substitutions and the
  final \<open>strip\<close>, in the order of the source).
\<close>

definition sanitize_answer :: "string \<Rightarrow> string" where
  "sanitize_answer answer0 =
     (let answer1 = re_sub m_fence None answer0;
          answer2 = re_sub (m_delim (CHR ''*'') 2) None answer1;
          answer3 = re_sub (m_delim (CHR ''*'') 1) None answer2;
          answer4 = re_sub (m_delim (CHR ''_'') 2) None answer3;
          answer5 = re_sub (m_delim (CHR ''_'') 1) None answer4;
          answer6 = re_sub m_header None answer5;
          answer7 = re_sub m_link None answer6
      in strip answer7)"

section \<open>Errors and the outside world\<close>

text \<open>
  Exceptions are values. The embedding and generation service, the database, the document
  readers and the text splitter are libraries outside the repository: each call of one of
  them is a function of the collaborators \<open>ext\<close>, and an exception it raises is an \<open>Inl\<close>.
\<close>

datatype api_failure = Timeout | RateLimit | BadRequest | AuthenticationFailure

definition transient :: "api_failure \<Rightarrow> bool" where
  "transient f = (f = Timeout \<or> f = RateLimit)"

datatype py_error =
    ValueError string
  | OpenAIError api_failure
  | DatabaseError
  | ReaderError
  | SplitterError
  | JSONDecodeError

section \<open>Chunks, rows and files\<close>

text \<open>
  The chunk dictionary of \<open>process_document\<close>; its key \<open>'text'\<close> is the field
  \<open>chunk_text\<close>. A chunk that \<open>search_similar_chunks\<close> returns has the key
  \<open>similarity\<close> besides.
\<close>

record chunk =
  chunk_text :: string
  source_file :: string
  folder_path :: "string option"
  page_number :: "nat option"
  chunk_index :: nat
  metadata :: "(string \<times> string) list"

record similar_chunk = chunk +
  similarity :: real

text \<open>
  A row of the table \<open>document_chunks\<close> as \<open>store_embeddings\<close> writes it:
  \<open>(chunk_text, embedding, source_file, folder_path, page_number, chunk_index, metadata)\<close>,
  and a row of the similarity query:
  \<open>(chunk_text, source_file, folder_path, page_number, chunk_index, metadata, similarity)\<close>.
  The driver hands a JSONB value back as a dictionary, as a string or as \<open>None\<close>.
\<close>

type_synonym row =
  "string \<times> string \<times> string \<times> string option \<times> nat option \<times> nat \<times> string"

datatype jsonb = JNull | JObject "(string \<times> string) list" | JString string

type_synonym result_row =
  "string \<times> string \<times> string option \<times> nat option \<times> nat \<times> jsonb \<times> real"

text \<open>
  An entry that \<open>data_path.rglob('*')\<close> yields, by what the libraries report of it:
  \<open>is_file\<close> is \<open>file_path.is_file()\<close>, \<open>suffix\<close> is \<open>Path(file_path).suffix\<close>, \<open>basename\<close> is
  \<open>os.path.basename(file_path)\<close>, \<open>relative_path\<close> is \<open>os.path.relpath(file_path, base_path)\<close>
  and \<open>parent\<close> is \<open>str(Path(relative_path).parent)\<close>, which is \<open>.\<close> for a file that lies in
  the data folder itself. \<open>pdf_pages\<close> is what PyPDF2 makes of the file: the exception of
  \<open>open\<close> or \<open>PdfReader\<close>, or for each page the outcome of \<open>extract_text\<close>.
  \<open>docx_paragraphs\<close> is what python-docx makes of it: the exception of \<open>Document\<close>, or the
  texts of the paragraphs.
\<close>

record file_entry =
  is_file :: bool
  suffix :: string
  basename :: string
  relative_path :: string
  parent :: string
  pdf_pages :: "py_error + (py_error + string) list"
  docx_paragraphs :: "py_error + string list"

text \<open>
  The collaborators. \<open>split_text ex chunk_size chunk_overlap text\<close> is
  \<open>RecursiveCharacterTextSplitter(chunk_size, chunk_overlap, length_function=count_tokens,
  separators=[...]).split_text(text)\<close>, the constructor included. \<open>embeddings_create ex n text\<close>
  and \<open>chat_create ex n system_prompt user_prompt\<close> are the outcome of the call number \<open>n\<close>
  of the client; \<open>connect ex n\<close> is the exception of the connection attempt number \<open>n\<close>,
  if it raises (also when the connection string is not configured). \<open>insert_rows ex table
  values\<close> is the exception of \<open>execute_values\<close> and \<open>commit\<close>, if one raises;
  \<open>select_similar ex table embedding_str threshold top_k\<close> is what the similarity query
  fetches. \<open>float_str\<close> is \<open>str\<close> on a float, \<open>json_dumps\<close> and \<open>json_loads\<close> are those of
  the module \<open>json\<close>.
\<close>

record ext =
  split_text :: "int \<Rightarrow> int \<Rightarrow> string \<Rightarrow> py_error + string list"
  embeddings_create :: "nat \<Rightarrow> string \<Rightarrow> py_error + real list"
  chat_create :: "nat \<Rightarrow> string \<Rightarrow> string \<Rightarrow> py_error + string"
  connect :: "nat \<Rightarrow> py_error option"
  insert_rows :: "row list \<Rightarrow> row list \<Rightarrow> py_error option"
  select_similar :: "row list \<Rightarrow> string \<Rightarrow> real \<Rightarrow> int \<Rightarrow> py_error + result_row list"
  float_str :: "real \<Rightarrow> string"
  json_dumps :: "(string \<times> string) list \<Rightarrow> string"
  json_loads :: "string \<Rightarrow> py_error + (string \<times> string) list"

text \<open>
  The state the calls change: how many calls the embedding and the generation service have
  received, how many database connections have been asked for, and the committed rows of
  \<open>document_chunks\<close>.
\<close>

record world =
  emb_calls :: nat
  chat_calls :: nat
  connect_attempts :: nat
  document_chunks :: "row list"

section \<open>document_processor.py\<close>

text \<open>
  \<open>extract_text_from_pdf\<close>: the pages are numbered from 1; a page whose text is empty after
  \<open>strip\<close> is left out; any exception is logged and raised again. A page dictionary
  \<open>{'text', 'page_number'}\<close> is a pair.
\<close>

type_synonym page_data = "string \<times> nat option"

fun pdf_page_loop :: "(nat \<times> (py_error + string)) list \<Rightarrow> page_data list \<Rightarrow> py_error + page_data list" where
  "pdf_page_loop [] pages = Inr pages"
| "pdf_page_loop ((page_num, Inl e) # rest) pages = Inl e"
| "pdf_page_loop ((page_num, Inr text) # rest) pages =
     (if strip text \<noteq> [] then pdf_page_loop rest (pages @ [(text, Some page_num)])
      else pdf_page_loop rest pages)"

definition extract_text_from_pdf :: "file_entry \<Rightarrow> py_error + page_data list" where
  "extract_text_from_pdf f =
     (case pdf_pages f of
        Inl e \<Rightarrow> Inl e
      | Inr reader_pages \<Rightarrow> pdf_page_loop (enumerate 1 reader_pages) [])"

text \<open>
  \<open>extract_text_from_docx\<close>: the paragraphs that are not empty after \<open>strip\<close>, joined by two
  line feeds, are one page without a number; no page when that text is empty after
  \<open>strip\<close>.
\<close>

definition extract_text_from_docx :: "file_entry \<Rightarrow> py_error + page_data list" where
  "extract_text_from_docx f =
     (case docx_paragraphs f of
        Inl e \<Rightarrow> Inl e
      | Inr paragraphs \<Rightarrow>
          (let full_text = filter (\<lambda>para. strip para \<noteq> []) paragraphs;
               text = join [CHR 0x0A, CHR 0x0A] full_text
           in if strip text \<noteq> [] then Inr [(text, None)] else Inr []))"

text \<open>\<open>chunk_text_by_tokens\<close> hands the text and both sizes to the splitter.\<close>

definition chunk_text_by_tokens :: "ext \<Rightarrow> string \<Rightarrow> int \<Rightarrow> int \<Rightarrow> py_error + string list" where
  "chunk_text_by_tokens ex text chunk_size chunk_overlap = split_text ex chunk_size chunk_overlap text"

text \<open>
  The loop over the pages in \<open>process_document\<close>, the same for both kinds of file but for
  the \<open>file_type\<close>. The chunks of a page are numbered from 0 by \<open>enumerate\<close>. An exception
  of the splitter leaves the loop; the handler of \<open>process_document\<close> then returns the
  chunks gathered so far.
\<close>

definition page_chunks_of :: "file_entry \<Rightarrow> string option \<Rightarrow> string \<Rightarrow> nat option \<Rightarrow> string list \<Rightarrow> chunk list" where
  "page_chunks_of f folder file_type page_no page_chunks =
     map (\<lambda>(idx, chunk_text).
            \<lparr>chunk_text = chunk_text,
             source_file = basename f,
             folder_path = folder,
             page_number = page_no,
             chunk_index = idx,
             metadata = [(''file_path'', relative_path f), (''file_type'', file_type)]\<rparr>)
         (enumerate 0 page_chunks)"

fun page_loop :: "ext \<Rightarrow> file_entry \<Rightarrow> string option \<Rightarrow> string \<Rightarrow> page_data list \<Rightarrow> chunk list \<Rightarrow> chunk list" where
  "page_loop ex f folder file_type [] chunks = chunks"
| "page_loop ex f folder file_type ((text, page_no) # rest) chunks =
     (case chunk_text_by_tokens ex text 1000 200 of
        Inl e \<Rightarrow> chunks
      | Inr page_chunks \<Rightarrow>
          page_loop ex f folder file_type rest
            (chunks @ page_chunks_of f folder file_type page_no page_chunks))"

text \<open>
  \<open>process_document\<close>: every exception of the extraction and of the chunking is caught and
  logged, and the chunks gathered until then are returned: none when the extraction
  raised.
\<close>

definition process_document :: "ext \<Rightarrow> file_entry \<Rightarrow> chunk list" where
  "process_document ex f =
     (let file_ext = lower (suffix f);
          folder = (if parent f \<noteq> ''.'' then Some (parent f) else None)
      in if file_ext = ''.pdf'' then
           (case extract_text_from_pdf f of
              Inl e \<Rightarrow> []
            | Inr pages \<Rightarrow> page_loop ex f folder ''pdf'' pages [])
         else if file_ext = ''.docx'' \<or> file_ext = ''.doc'' then
           (case extract_text_from_docx f of
              Inl e \<Rightarrow> []
            | Inr pages \<Rightarrow> page_loop ex f folder ''docx'' pages [])
         else [])"

text \<open>
  \<open>scan_and_process_documents\<close>: the data folder is \<open>None\<close> when it does not exist, and the
  entries below it otherwise, in the order \<open>rglob\<close> yields them.
\<close>

definition supported :: "file_entry \<Rightarrow> bool" where
  "supported f = (is_file f \<and> lower (suffix f) \<in> {''.pdf'', ''.docx'', ''.doc''})"

fun scan_loop :: "ext \<Rightarrow> file_entry list \<Rightarrow> chunk list \<Rightarrow> nat \<Rightarrow> chunk list \<times> nat" where
  "scan_loop ex [] all_chunks files_processed = (all_chunks, files_processed)"
| "scan_loop ex (f # rest) all_chunks files_processed =
     (if supported f
      then scan_loop ex rest (all_chunks @ process_document ex f) (files_processed + 1)
      else scan_loop ex rest all_chunks files_processed)"

definition scan_and_process_documents :: "ext \<Rightarrow> file_entry list option \<Rightarrow> chunk list \<times> nat" where
  "scan_and_process_documents ex data_folder =
     (case data_folder of
        None \<Rightarrow> ([], 0)
      | Some entries \<Rightarrow> scan_loop ex entries [] 0)"

section \<open>database.py and vector_store.py\<close>

text \<open>\<open>get_db_connection\<close>: one connection attempt, which may raise.\<close>

definition get_db_connection :: "ext \<Rightarrow> world \<Rightarrow> (py_error + unit) \<times> world" where
  "get_db_connection ex w =
     ((case connect ex (connect_attempts w) of
         Some e \<Rightarrow> Inl e
       | None \<Rightarrow> Inr ()),
      w\<lparr>connect_attempts := connect_attempts w + 1\<rparr>)"

text \<open>The vector literal of PostgreSQL: \<open>'[' + ','.join(map(str, embedding)) + ']'\<close>.\<close>

definition embedding_str :: "ext \<Rightarrow> real list \<Rightarrow> string" where
  "embedding_str ex embedding = ''['' @ join '','' (map (float_str ex) embedding) @ '']''"

text \<open>
  The loop of \<open>store_embeddings\<close> that prepares the rows: the null bytes are taken out of
  the text and the text is stripped; a chunk whose text is empty then is skipped.
\<close>

fun build_values :: "ext \<Rightarrow> (chunk \<times> real list) list \<Rightarrow> row list \<Rightarrow> row list" where
  "build_values ex [] values = values"
| "build_values ex ((chunk, embedding) # rest) values =
     (let text = strip (remove_char (CHR 0x00) (chunk_text chunk))
      in if text = [] then build_values ex rest values
         else build_values ex rest
                (values @ [(text, embedding_str ex embedding, source_file chunk, folder_path chunk,
                            page_number chunk, chunk_index chunk, json_dumps ex (metadata chunk))]))"

text \<open>
  \<open>store_embeddings\<close>: the lengths are compared before the connection is asked for. An
  exception of the insertion or of the commit rolls the transaction back, so the table is
  as before, and is raised again.
\<close>

definition mismatch_message :: "nat \<Rightarrow> nat \<Rightarrow> string" where
  "mismatch_message n_chunks n_embeddings =
     ''Mismatch: '' @ str_nat n_chunks @ '' chunks but '' @ str_nat n_embeddings @ '' embeddings''"

definition store_embeddings :: "ext \<Rightarrow> chunk list \<Rightarrow> real list list \<Rightarrow> world \<Rightarrow> (py_error + unit) \<times> world" where
  "store_embeddings ex chunks embeddings w =
     (if length chunks \<noteq> length embeddings
      then (Inl (ValueError (mismatch_message (length chunks) (length embeddings))), w)
      else
        (case get_db_connection ex w of
           (Inl e, w1) \<Rightarrow> (Inl e, w1)
         | (Inr _, w1) \<Rightarrow>
             (let values = build_values ex (zip chunks embeddings) []
              in case insert_rows ex (document_chunks w1) values of
                   Some e \<Rightarrow> (Inl e, w1)
                 | None \<Rightarrow> (Inr (), w1\<lparr>document_chunks := document_chunks w1 @ values\<rparr>))))"

text \<open>
  \<open>search_similar_chunks\<close>: the rows of the query become chunk dictionaries. An absent or
  empty metadata value is the empty dictionary, and one that came as a string is parsed.
\<close>

definition metadata_of :: "ext \<Rightarrow> jsonb \<Rightarrow> py_error + (string \<times> string) list" where
  "metadata_of ex j =
     (case j of
        JNull \<Rightarrow> Inr []
      | JObject d \<Rightarrow> Inr d
      | JString s \<Rightarrow> if s = [] then Inr [] else json_loads ex s)"

fun result_loop :: "ext \<Rightarrow> result_row list \<Rightarrow> similar_chunk list \<Rightarrow> py_error + similar_chunk list" where
  "result_loop ex [] chunks = Inr chunks"
| "result_loop ex ((r0, r1, r2, r3, r4, r5, r6) # rest) chunks =
     (case metadata_of ex r5 of
        Inl e \<Rightarrow> Inl e
      | Inr md \<Rightarrow>
          result_loop ex rest
            (chunks @ [\<lparr>chunk_text = r0, source_file = r1, folder_path = r2, page_number = r3,
                        chunk_index = r4, metadata = md, similarity = r6\<rparr>]))"

definition search_similar_chunks :: "ext \<Rightarrow> real list \<Rightarrow> int \<Rightarrow> real \<Rightarrow> world \<Rightarrow> (py_error + similar_chunk list) \<times> world" where
  "search_similar_chunks ex query_embedding top_k threshold w =
     (case get_db_connection ex w of
        (Inl e, w1) \<Rightarrow> (Inl e, w1)
      | (Inr _, w1) \<Rightarrow>
          (case select_similar ex (document_chunks w1) (embedding_str ex query_embedding) threshold top_k of
             Inl e \<Rightarrow> (Inl e, w1)
           | Inr results \<Rightarrow> (result_loop ex results [], w1)))"

section \<open>rag_chain.py\<close>

text \<open>\<open>get_embedding\<close>: one call of the embedding client; its exception is logged and raised again.\<close>

definition get_embedding :: "ext \<Rightarrow> string \<Rightarrow> world \<Rightarrow> (py_error + real list) \<times> world" where
  "get_embedding ex text w =
     (embeddings_create ex (emb_calls w) text, w\<lparr>emb_calls := emb_calls w + 1\<rparr>)"

text \<open>
  \<open>format_source_citation\<close>. The two \<open>if chunk.get(...)\<close> test the truth value: a folder
  path that is \<open>None\<close> or empty and a page number that is \<open>None\<close> or 0 add no part.
\<close>

definition format_source_citation :: "'a chunk_scheme \<Rightarrow> string" where
  "format_source_citation chunk =
     (let parts0 = [];
          parts1 = (case folder_path chunk of
                      None \<Rightarrow> parts0
                    | Some fp \<Rightarrow> if fp \<noteq> [] then parts0 @ [fp] else parts0);
          parts2 = parts1 @ [source_file chunk];
          parts3 = (case page_number chunk of
                      None \<Rightarrow> parts2
                    | Some n \<Rightarrow> if n \<noteq> 0 then parts2 @ [''Page '' @ str_nat n] else parts2)
      in join '' > '' parts3)"

text \<open>The loop of \<open>query_rag\<close> over the retrieved chunks: the context parts and the sources.\<close>

fun context_loop :: "similar_chunk list \<Rightarrow> string list \<Rightarrow> string list \<Rightarrow> string list \<times> string list" where
  "context_loop [] context_parts sources = (context_parts, sources)"
| "context_loop (chunk # rest) context_parts sources =
     (let context_parts' =
            context_parts @ [''[Source: '' @ format_source_citation chunk @ '']'' @ [CHR 0x0A] @ chunk_text chunk];
          source_citation = format_source_citation chunk;
          sources' = (if source_citation \<notin> set sources then sources @ [source_citation] else sources)
      in context_loop rest context_parts' sources')"

definition no_information :: string where
  "no_information =
     ''I couldn't find any relevant information in the documents to answer your question.''"

definition system_prompt :: string where
  "system_prompt =
     ''You are a helpful assistant that answers questions based on the provided context from documents. ''
     @ [CHR 0x0A] @
     ''Use only the information from the context to answer the question. If the context doesn't contain enough information to answer the question, say so.''"

definition user_prompt :: "string \<Rightarrow> string \<Rightarrow> string" where
  "user_prompt context user_query =
     ''Context from documents: '' @ context @ [CHR 0x0A] @
     ''        Question: '' @ user_query @ [CHR 0x0A]"

record rag_result =
  answer :: string
  sources :: "string list"

text \<open>
  \<open>query_rag\<close>: embed the query, search, return the fixed answer when nothing was found,
  otherwise build the context, ask the generation service and clean its answer. Every
  exception is logged and raised again. The threshold of the search is its default 0.0.
\<close>

definition query_rag :: "ext \<Rightarrow> string \<Rightarrow> int \<Rightarrow> world \<Rightarrow> (py_error + rag_result) \<times> world" where
  "query_rag ex user_query top_k w =
     (case get_embedding ex user_query w of
        (Inl e, w1) \<Rightarrow> (Inl e, w1)
      | (Inr query_embedding, w1) \<Rightarrow>
          (case search_similar_chunks ex query_embedding top_k 0 w1 of
             (Inl e, w2) \<Rightarrow> (Inl e, w2)
           | (Inr similar_chunks, w2) \<Rightarrow>
               if similar_chunks = []
               then (Inr \<lparr>answer = no_information, sources = []\<rparr>, w2)
               else
                 (let (context_parts, srcs) = context_loop similar_chunks [] [];
                      context = join ([CHR 0x0A, CHR 0x0A] @ ''---'' @ [CHR 0x0A, CHR 0x0A]) context_parts;
                      w3 = w2\<lparr>chat_calls := chat_calls w2 + 1\<rparr>
                  in case chat_create ex (chat_calls w2) system_prompt (user_prompt context user_query) of
                       Inl e \<Rightarrow> (Inl e, w3)
                     | Inr content \<Rightarrow> (Inr \<lparr>answer = sanitize_answer content, sources = srcs\<rparr>, w3))))"

section \<open>api/index.py\<close>

text \<open>The loop of \<open>load_documents_internal\<close> that asks for one embedding per chunk.\<close>

fun embed_loop :: "ext \<Rightarrow> chunk list \<Rightarrow> real list list \<Rightarrow> world \<Rightarrow> (py_error + real list list) \<times> world" where
  "embed_loop ex [] embeddings w = (Inr embeddings, w)"
| "embed_loop ex (chunk # rest) embeddings w =
     (case get_embedding ex (chunk_text chunk) w of
        (Inl e, w1) \<Rightarrow> (Inl e, w1)
      | (Inr embedding, w1) \<Rightarrow> embed_loop ex rest (embeddings @ [embedding]) w1)"

text \<open>\<open>load_documents_internal\<close> returns \<open>(chunks_processed, files_processed)\<close>.\<close>

definition load_documents_internal :: "ext \<Rightarrow> file_entry list option \<Rightarrow> world \<Rightarrow> (py_error + nat \<times> nat) \<times> world" where
  "load_documents_internal ex data_folder w =
     (let (all_chunks, files_processed) = scan_and_process_documents ex data_folder
      in if all_chunks = [] then (Inr (0, files_processed), w)
         else
           (case embed_loop ex all_chunks [] w of
              (Inl e, w1) \<Rightarrow> (Inl e, w1)
            | (Inr embeddings, w1) \<Rightarrow>
                (case store_embeddings ex all_chunks embeddings w1 of
                   (Inl e, w2) \<Rightarrow> (Inl e, w2)
                 | (Inr _, w2) \<Rightarrow> (Inr (length all_chunks, files_processed), w2))))"

text \<open>
  The endpoint \<open>/api/load-documents\<close>: the response, or the status code of the
  \<open>HTTPException\<close>. The exception with the code 404 for a missing data folder is raised
  inside the \<open>try\<close> block, whose handler turns every exception into one with the code 500.
\<close>

record load_documents_response =
  message :: string
  chunks_processed :: nat
  files_processed :: nat

definition load_documents :: "ext \<Rightarrow> file_entry list option \<Rightarrow> world \<Rightarrow> (nat + load_documents_response) \<times> world" where
  "load_documents ex data_folder w =
     (if data_folder = None then (Inl 500, w)
      else
        (case load_documents_internal ex data_folder w of
           (Inl e, w1) \<Rightarrow> (Inl 500, w1)
         | (Inr (cp, fp), w1) \<Rightarrow>
             (Inr \<lparr>message = ''Documents loaded successfully'', chunks_processed = cp,
                   files_processed = fp\<rparr>, w1)))"

section \<open>Notions of the specification\<close>












text \<open>
  A list without its repetitions, in the order of first appearance: what the specification
  asks of the sources of an answer.
\<close>

fun first_occurrences :: "'a list \<Rightarrow> 'a list" where
  "first_occurrences [] = []"
| "first_occurrences (x # xs) = x # first_occurrences (filter (\<lambda>y. y \<noteq> x) xs)"

text \<open>
  The extraction of a file raises: the reader that \<open>process_document\<close> chooses by the
  suffix fails on it.
\<close>

definition extraction_fails :: "file_entry \<Rightarrow> bool" where
  "extraction_fails f =
     ((lower (suffix f) = ''.pdf'' \<and> isl (extract_text_from_pdf f)) \<or>
      (lower (suffix f) \<in> {''.docx'', ''.doc''} \<and> isl (extract_text_from_docx f)))"

text \<open>The chunks of a run that carry a given file name and page number, in the order of the run.\<close>

definition chunks_of_page :: "string \<Rightarrow> nat option \<Rightarrow> chunk list \<Rightarrow> chunk list" where
  "chunks_of_page sf pn chunks = filter (\<lambda>c. source_file c = sf \<and> page_number c = pn) chunks"

text \<open>
  The chunks that the loop of \<open>process_document\<close> adds for one page: those of the text the
  splitter returns, none when the splitter raises.
\<close>

definition page_block :: "ext \<Rightarrow> file_entry \<Rightarrow> string option \<Rightarrow> string \<Rightarrow> page_data \<Rightarrow> chunk list" where
  "page_block ex f folder file_type p =
     page_chunks_of f folder file_type (snd p)
       (case chunk_text_by_tokens ex (fst p) 1000 200 of Inl e \<Rightarrow> [] | Inr page_chunks \<Rightarrow> page_chunks)"

text \<open>No two of the files that a run processes have the same file name.\<close>

definition distinct_names :: "file_entry list option \<Rightarrow> bool" where
  "distinct_names data_folder =
     (case data_folder of
        None \<Rightarrow> True
      | Some entries \<Rightarrow> distinct (map basename (filter supported entries)))"

section \<open>Sample collaborators, files and states\<close>

text \<open>
  \<open>json.dumps\<close> on a dictionary of strings that need no escape, and \<open>str\<close> on the
  float 1.0, the only component of the sample embeddings.
\<close>

definition sample_dumps :: "(string \<times> string) list \<Rightarrow> string" where
  "sample_dumps d =
     ''{'' @
     join '', '' (map (\<lambda>(k, v). [CHR 0x22] @ k @ [CHR 0x22] @ '': '' @ [CHR 0x22] @ v @ [CHR 0x22]) d) @
     ''}''"

text \<open>
  A splitter that returns a short text as its only chunk, services and a database that
  answer every call, and an empty database state.
\<close>

definition sample_ext :: ext where
  "sample_ext =
     \<lparr>split_text = (\<lambda>chunk_size chunk_overlap text. Inr [text]),
      embeddings_create = (\<lambda>n text. Inr [1]),
      chat_create = (\<lambda>n sys usr. Inr ''See **section 2**.''),
      connect = (\<lambda>n. None),
      insert_rows = (\<lambda>table values. None),
      select_similar = (\<lambda>table emb threshold top_k. Inr []),
      float_str = (\<lambda>x. ''1.0''),
      json_dumps = sample_dumps,
      json_loads = (\<lambda>s. Inr [])\<rparr>"

definition empty_world :: world where
  "empty_world = \<lparr>emb_calls = 0, chat_calls = 0, connect_attempts = 0, document_chunks = []\<rparr>"

text \<open>A PDF of two pages, the second of which holds null bytes only.\<close>

definition nul_page_pdf :: file_entry where
  "nul_page_pdf =
     \<lparr>is_file = True, suffix = ''.pdf'', basename = ''scan.pdf'', relative_path = ''scan.pdf'',
      parent = ''.'', pdf_pages = Inr [Inr ''Lockout procedure'', Inr [CHR 0x00, CHR 0x00]],
      docx_paragraphs = Inl ReaderError\<rparr>"

text \<open>A PDF that the reader cannot open, and a Word document of two paragraphs.\<close>

definition corrupt_pdf :: file_entry where
  "corrupt_pdf =
     \<lparr>is_file = True, suffix = ''.PDF'', basename = ''broken.PDF'', relative_path = ''broken.PDF'',
      parent = ''.'', pdf_pages = Inl ReaderError, docx_paragraphs = Inl ReaderError\<rparr>"

definition valid_docx :: file_entry where
  "valid_docx =
     \<lparr>is_file = True, suffix = ''.docx'', basename = ''sop.docx'', relative_path = ''hr/sop.docx'',
      parent = ''hr'', pdf_pages = Inl ReaderError,
      docx_paragraphs = Inr [''Wear gloves.'', '' '', ''Report spills.'']\<rparr>"

text \<open>Two PDFs of one page each that have the same name in two folders.\<close>

definition readme_a :: file_entry where
  "readme_a =
     \<lparr>is_file = True, suffix = ''.pdf'', basename = ''readme.pdf'', relative_path = ''a/readme.pdf'',
      parent = ''a'', pdf_pages = Inr [Inr ''Alpha''], docx_paragraphs = Inl ReaderError\<rparr>"

definition readme_b :: file_entry where
  "readme_b =
     \<lparr>is_file = True, suffix = ''.pdf'', basename = ''readme.pdf'', relative_path = ''b/readme.pdf'',
      parent = ''b'', pdf_pages = Inr [Inr ''Beta''], docx_paragraphs = Inl ReaderError\<rparr>"

text \<open>A database whose similarity query finds three chunks, two of them of the same page.\<close>

definition found_ext :: ext where
  "found_ext =
     sample_ext\<lparr>select_similar := (\<lambda>table emb threshold top_k.
        Inr [(''Wear gloves.'', ''sop.docx'', Some ''hr'', None, 0, JNull, 0.9),
             (''Lockout procedure'', ''scan.pdf'', None, Some 1, 0, JObject [], 0.8),
             (''Report spills.'', ''sop.docx'', Some ''hr'', None, 1, JNull, 0.7)])\<rparr>"

text \<open>The chunks that \<open>search_similar_chunks\<close> makes of those three rows.\<close>

definition found_chunks :: "similar_chunk list" where
  "found_chunks =
     [\<lparr>chunk_text = ''Wear gloves.'', source_file = ''sop.docx'', folder_path = Some ''hr'',
       page_number = None, chunk_index = 0, metadata = [], similarity = 0.9\<rparr>,
      \<lparr>chunk_text = ''Lockout procedure'', source_file = ''scan.pdf'', folder_path = None,
       page_number = Some 1, chunk_index = 0, metadata = [], similarity = 0.8\<rparr>,
      \<lparr>chunk_text = ''Report spills.'', source_file = ''sop.docx'', folder_path = Some ''hr'',
       page_number = None, chunk_index = 1, metadata = [], similarity = 0.7\<rparr>]"

text \<open>A splitter that cuts every text into two chunks.\<close>

definition halving_ext :: ext where
  "halving_ext =
     sample_ext\<lparr>split_text := (\<lambda>chunk_size chunk_overlap text.
        Inr [take (length text div 2) text, drop (length text div 2) text])\<rparr>"


section \<open>The libraries behind two of the calls\<close>




text \<open>
  Modelled from the spec: the retry of a failed request inside \<open>embeddings.create\<close>, which
  is code of the client library and not of the repository. A request that fails with a
  transient cause (timeout, rate limit) is sent again after a wait that doubles with every
  attempt, until it succeeds, fails for another cause or the retries are used up; the
  last failure is then the exception of the call. \<open>attempt k\<close> is the outcome of the
  request number \<open>k\<close> of one call, the waits are counted in units of the first wait, and
  the result carries the waits that were made.
\<close>

definition is_transient :: "py_error \<Rightarrow> bool" where
  "is_transient e = (case e of OpenAIError f \<Rightarrow> transient f | _ \<Rightarrow> False)"

definition backoff_delay :: "nat \<Rightarrow> nat" where
  "backoff_delay k = 2 ^ k"

fun with_retries ::
  "(nat \<Rightarrow> py_error + real list) \<Rightarrow> nat \<Rightarrow> nat \<Rightarrow> (py_error + real list) \<times> nat list" where
  "with_retries attempt 0 k = (attempt k, [])"
| "with_retries attempt (Suc retries_left) k =
     (case attempt k of
        Inr v \<Rightarrow> (Inr v, [])
      | Inl e \<Rightarrow>
          if is_transient e
          then (let (result, waits) = with_retries attempt retries_left (Suc k)
                in (result, backoff_delay k # waits))
          else (Inl e, []))"

text \<open>
  The client method with that retry: the call number \<open>n\<close> for \<open>text\<close> makes the requests
  \<open>attempts n text 0\<close>, \<open>attempts n text 1\<close>, ...
\<close>

definition retrying_create ::
  "nat \<Rightarrow> (nat \<Rightarrow> string \<Rightarrow> nat \<Rightarrow> py_error + real list) \<Rightarrow> nat \<Rightarrow> string \<Rightarrow> py_error + real list" where
  "retrying_create max_retries attempts n text = fst (with_retries (attempts n text) max_retries 0)"

text \<open>
  A service that meets the rate limit on the first request of every call and answers the
  second, a service that times out on every request, and the sample collaborators with a
  client of two retries in front of each.
\<close>

definition busy_once :: "nat \<Rightarrow> string \<Rightarrow> nat \<Rightarrow> py_error + real list" where
  "busy_once n text k = (if k = 0 then Inl (OpenAIError RateLimit) else Inr [1])"

definition always_timeout :: "nat \<Rightarrow> string \<Rightarrow> nat \<Rightarrow> py_error + real list" where
  "always_timeout n text k = Inl (OpenAIError Timeout)"

definition busy_once_ext :: ext where
  "busy_once_ext = sample_ext\<lparr>embeddings_create := retrying_create 2 busy_once\<rparr>"

definition always_timeout_ext :: ext where
  "always_timeout_ext = sample_ext\<lparr>embeddings_create := retrying_create 2 always_timeout\<rparr>"

section \<open>The clean-up of the generated answer\<close>



































































section \<open>The store write\<close>

text \<open>
  C10. When the numbers of chunks and of embeddings differ, \<open>store_embeddings\<close> raises a
  \<open>ValueError\<close> and the state is as before: no connection has been asked for, and the
  table holds the rows it held.
\<close>

theorem store_embeddings_mismatch:
  assumes "length chunks \<noteq> length embeddings"
  shows "store_embeddings ex chunks embeddings w =
           (Inl (ValueError (mismatch_message (length chunks) (length embeddings))), w) \<and>
         connect_attempts (snd (store_embeddings ex chunks embeddings w)) = connect_attempts w \<and>
         document_chunks (snd (store_embeddings ex chunks embeddings w)) = document_chunks w"
  using assms by (simp add: store_embeddings_def)

theorem store_embeddings_mismatch_witness:
  "length [\<lparr>chunk_text = ''Alpha'', source_file = ''a.pdf'', folder_path = None,
            page_number = Some 1, chunk_index = 0, metadata = []\<rparr>] \<noteq> length ([] :: real list list) \<and>
   store_embeddings sample_ext
     [\<lparr>chunk_text = ''Alpha'', source_file = ''a.pdf'', folder_path = None,
       page_number = Some 1, chunk_index = 0, metadata = []\<rparr>] [] empty_world =
     (Inl (ValueError ''Mismatch: 1 chunks but 0 embeddings''), empty_world)"
proof -
  let ?c = "\<lparr>chunk_text = ''Alpha'', source_file = ''a.pdf'', folder_path = None,
            page_number = Some 1, chunk_index = 0, metadata = []\<rparr>"
  have h: "length [?c] \<noteq> length ([] :: real list list)" by simp
  have m: "mismatch_message (length [?c]) (length ([] :: real list list)) = ''Mismatch: 1 chunks but 0 embeddings''"
    by (simp add: mismatch_message_def)
  show ?thesis
    using h m store_embeddings_mismatch[OF h, of sample_ext empty_world] by simp
qed

section \<open>The embedding call\<close>

lemma get_embedding_world:
  "snd (get_embedding ex text w) = w\<lparr>emb_calls := emb_calls w + 1\<rparr>"
  by (simp add: get_embedding_def)

lemma with_retries_success:
  assumes "k \<le> r"
    and "\<And>j. j < k \<Longrightarrow> \<exists>e. attempt (n0 + j) = Inl e \<and> is_transient e"
    and "attempt (n0 + k) = Inr v"
  shows "with_retries attempt r n0 = (Inr v, map backoff_delay [n0..<n0 + k])"
  using assms
proof (induction r arbitrary: k n0)
  case 0
  then show ?case by simp
next
  case (Suc r)
  show ?case
  proof (cases k)
    case 0
    with Suc.prems(3) show ?thesis by simp
  next
    case (Suc k')
    from Suc.prems(2)[of 0] Suc obtain e where e: "attempt n0 = Inl e" "is_transient e" by auto
    have le: "k' \<le> r" using Suc.prems(1) Suc by simp
    have tr: "\<exists>e. attempt (Suc n0 + j) = Inl e \<and> is_transient e" if "j < k'" for j
      using Suc.prems(2)[of "Suc j"] that Suc by simp
    have ok: "attempt (Suc n0 + k') = Inr v" using Suc.prems(3) Suc by simp
    have ih: "with_retries attempt r (Suc n0) = (Inr v, map backoff_delay [Suc n0..<Suc n0 + k'])"
      using le tr ok by (rule Suc.IH)
    have u: "[n0..<n0 + k] = n0 # [Suc n0..<Suc n0 + k']"
      unfolding Suc by (subst upt_rec) simp
    show ?thesis unfolding u using e ih by (simp del: upt_Suc)
  qed
qed

lemma with_retries_exhausted:
  assumes "with_retries attempt r n0 = (Inl e, waits)" and "is_transient e"
  shows "(\<forall>j\<le>r. \<exists>e'. attempt (n0 + j) = Inl e' \<and> is_transient e') \<and>
         attempt (n0 + r) = Inl e \<and> waits = map backoff_delay [n0..<n0 + r]"
  using assms
proof (induction r arbitrary: n0 waits)
  case 0
  then show ?case by auto
next
  case (Suc r)
  show ?case
  proof (cases "attempt n0")
    case (Inr v)
    with Suc.prems show ?thesis by simp
  next
    case (Inl e0)
    show ?thesis
    proof (cases "is_transient e0")
      case False
      with Suc.prems Inl show ?thesis by simp
    next
      case True
      obtain res ws where rec: "with_retries attempt r (Suc n0) = (res, ws)"
        by (cases "with_retries attempt r (Suc n0)")
      with Suc.prems(1) Inl True have res: "res = Inl e" and ws: "waits = backoff_delay n0 # ws"
        by simp_all
      from Suc.IH[OF rec[unfolded res] Suc.prems(2)] have ih:
        "\<forall>j\<le>r. \<exists>e'. attempt (Suc n0 + j) = Inl e' \<and> is_transient e'"
        "attempt (Suc n0 + r) = Inl e" "ws = map backoff_delay [Suc n0..<Suc n0 + r]"
        by (simp_all del: upt_Suc)
      have all: "\<exists>e'. attempt (n0 + j) = Inl e' \<and> is_transient e'" if "j \<le> Suc r" for j
      proof (cases j)
        case 0
        with Inl True show ?thesis by simp
      next
        case (Suc j')
        with that ih(1) show ?thesis by simp
      qed
      have u: "[n0..<n0 + Suc r] = n0 # [Suc n0..<Suc n0 + r]"
        by (subst upt_rec) simp
      have "waits = map backoff_delay [n0..<n0 + Suc r]"
        unfolding u using ws ih(3) by (simp del: upt_Suc)
      with all ih(2) show ?thesis by (simp del: upt_Suc)
    qed
  qed
qed

lemma embed_loop_fails:
  assumes "i < length cs"
    and "\<And>j. j < i \<Longrightarrow> \<not> isl (embeddings_create ex (emb_calls w + j) (chunk_text (cs ! j)))"
    and "embeddings_create ex (emb_calls w + i) (chunk_text (cs ! i)) = Inl e"
  shows "embed_loop ex cs embeddings w = (Inl e, w\<lparr>emb_calls := emb_calls w + i + 1\<rparr>)"
  using assms
proof (induction cs arbitrary: i embeddings w)
  case Nil
  then show ?case by simp
next
  case (Cons c cs)
  show ?case
  proof (cases i)
    case 0
    with Cons.prems(3) show ?thesis by (simp add: get_embedding_def)
  next
    case (Suc i')
    from Cons.prems(2)[of 0] Suc obtain v where v: "embeddings_create ex (emb_calls w) (chunk_text c) = Inr v"
      by (cases "embeddings_create ex (emb_calls w) (chunk_text c)") auto
    let ?w1 = "w\<lparr>emb_calls := emb_calls w + 1\<rparr>"
    have g: "get_embedding ex (chunk_text c) w = (Inr v, ?w1)"
      using v by (simp add: get_embedding_def)
    have a: "i' < length cs" using Cons.prems(1) Suc by simp
    have b: "\<not> isl (embeddings_create ex (emb_calls ?w1 + j) (chunk_text (cs ! j)))" if "j < i'" for j
      using Cons.prems(2)[of "Suc j"] that Suc by simp
    have c: "embeddings_create ex (emb_calls ?w1 + i') (chunk_text (cs ! i')) = Inl e"
      using Cons.prems(3) Suc by simp
    have "embed_loop ex cs (embeddings @ [v]) ?w1 = (Inl e, ?w1\<lparr>emb_calls := emb_calls ?w1 + i' + 1\<rparr>)"
      using a b c by (rule Cons.IH)
    then show ?thesis using g Suc by simp
  qed
qed

lemma load_documents_internal_fails:
  assumes "i < length (fst (scan_and_process_documents ex data_folder))"
    and "\<And>j. j < i \<Longrightarrow> \<not> isl (embeddings_create ex (emb_calls w + j)
            (chunk_text (fst (scan_and_process_documents ex data_folder) ! j)))"
    and "embeddings_create ex (emb_calls w + i)
            (chunk_text (fst (scan_and_process_documents ex data_folder) ! i)) = Inl e"
  shows "load_documents_internal ex data_folder w = (Inl e, w\<lparr>emb_calls := emb_calls w + i + 1\<rparr>)"
proof -
  obtain cs n where s: "scan_and_process_documents ex data_folder = (cs, n)"
    by (cases "scan_and_process_documents ex data_folder")
  from assms(1) s have ne: "cs \<noteq> []" by auto
  have "embed_loop ex cs [] w = (Inl e, w\<lparr>emb_calls := emb_calls w + i + 1\<rparr>)"
    using assms unfolding s fst_conv by (rule embed_loop_fails)
  then show ?thesis using s ne by (simp add: load_documents_internal_def)
qed

lemma query_rag_embedding_fails:
  "fst (get_embedding ex text w) = Inl e \<Longrightarrow> fst (query_rag ex text top_k w) = Inl e"
  by (cases "get_embedding ex text w") (simp add: query_rag_def)


text \<open>
  C3. With a client that retries as the specification says, a call of \<open>get_embedding\<close>
  whose request fails with a transient cause is not fatal at once: if one of the requests
  that the retries allow succeeds after transient failures only, the call returns its
  embedding. The call raises a transient failure only when the first request and every
  retry have failed transiently, and the waits before the retries double each time. An
  exception of \<open>get_embedding\<close> ends the query, and it ends the ingestion run at the chunk
  whose embedding fails.
\<close>

theorem get_embedding_retries:
  assumes "embeddings_create ex = retrying_create max_retries attempts"
  shows "(\<forall>k v. k \<le> max_retries \<and>
            (\<forall>j<k. \<exists>e. attempts (emb_calls w) text j = Inl e \<and> is_transient e) \<and>
            attempts (emb_calls w) text k = Inr v \<longrightarrow>
              fst (get_embedding ex text w) = Inr v \<and>
              snd (with_retries (attempts (emb_calls w) text) max_retries 0) =
                map backoff_delay [0..<k]) \<and>
         (\<forall>e. fst (get_embedding ex text w) = Inl e \<and> is_transient e \<longrightarrow>
              (\<forall>j\<le>max_retries. \<exists>e'. attempts (emb_calls w) text j = Inl e' \<and> is_transient e') \<and>
              snd (with_retries (attempts (emb_calls w) text) max_retries 0) =
                map backoff_delay [0..<max_retries]) \<and>
         (\<forall>k. backoff_delay (Suc k) = 2 * backoff_delay k) \<and>
         (\<forall>e. fst (get_embedding ex text w) = Inl e \<longrightarrow> fst (query_rag ex text top_k w) = Inl e) \<and>
         (\<forall>e i. i < length (fst (scan_and_process_documents ex data_folder)) \<and>
            (\<forall>j<i. \<not> isl (embeddings_create ex (emb_calls w + j)
                        (chunk_text (fst (scan_and_process_documents ex data_folder) ! j)))) \<and>
            embeddings_create ex (emb_calls w + i)
              (chunk_text (fst (scan_and_process_documents ex data_folder) ! i)) = Inl e \<longrightarrow>
              fst (load_documents_internal ex data_folder w) = Inl e)"
proof -
  let ?a = "attempts (emb_calls w) text"
  have g: "fst (get_embedding ex text w) = fst (with_retries ?a max_retries 0)"
    using assms by (simp add: get_embedding_def retrying_create_def)
  have 1: "fst (get_embedding ex text w) = Inr v \<and>
      snd (with_retries ?a max_retries 0) = map backoff_delay [0..<k]"
    if "k \<le> max_retries" "\<forall>j<k. \<exists>e. ?a j = Inl e \<and> is_transient e" "?a k = Inr v" for k v
  proof -
    have "with_retries ?a max_retries 0 = (Inr v, map backoff_delay [0..<0 + k])"
      using that by (intro with_retries_success) simp_all
    with g show ?thesis by simp
  qed
  have 2: "(\<forall>j\<le>max_retries. \<exists>e'. ?a j = Inl e' \<and> is_transient e') \<and>
      snd (with_retries ?a max_retries 0) = map backoff_delay [0..<max_retries]"
    if "fst (get_embedding ex text w) = Inl e" "is_transient e" for e
  proof -
    have "fst (with_retries ?a max_retries 0) = Inl e" using that(1) g by simp
    then obtain waits where "with_retries ?a max_retries 0 = (Inl e, waits)"
      by (cases "with_retries ?a max_retries 0") auto
    from with_retries_exhausted[OF this that(2)] this show ?thesis by simp
  qed
  have 3: "backoff_delay (Suc k) = 2 * backoff_delay k" for k
    by (simp add: backoff_delay_def)
  have 5: "fst (load_documents_internal ex data_folder w) = Inl e"
    if "i < length (fst (scan_and_process_documents ex data_folder))"
      "\<forall>j<i. \<not> isl (embeddings_create ex (emb_calls w + j)
          (chunk_text (fst (scan_and_process_documents ex data_folder) ! j)))"
      "embeddings_create ex (emb_calls w + i)
          (chunk_text (fst (scan_and_process_documents ex data_folder) ! i)) = Inl e" for e i
    using load_documents_internal_fails[of i ex data_folder w e] that by simp
  show ?thesis
    using 1 2 3 5 query_rag_embedding_fails[of ex "text" w _ top_k] by blast
qed

theorem get_embedding_retries_witness:
  "embeddings_create busy_once_ext = retrying_create 2 busy_once \<and>
   busy_once 0 ''spills'' 0 = Inl (OpenAIError RateLimit) \<and>
   is_transient (OpenAIError RateLimit) \<and>
   busy_once 0 ''spills'' 1 = Inr [1] \<and>
   fst (get_embedding busy_once_ext ''spills'' empty_world) = Inr [1] \<and>
   snd (with_retries (busy_once 0 ''spills'') 2 0) = [1] \<and>
   embeddings_create always_timeout_ext = retrying_create 2 always_timeout \<and>
   fst (get_embedding always_timeout_ext ''spills'' empty_world) = Inl (OpenAIError Timeout) \<and>
   is_transient (OpenAIError Timeout) \<and>
   snd (with_retries (always_timeout 0 ''spills'') 2 0) = [1, 2] \<and>
   fst (query_rag always_timeout_ext ''spills'' 5 empty_world) = Inl (OpenAIError Timeout) \<and>
   fst (load_documents_internal always_timeout_ext (Some [valid_docx]) empty_world) =
     Inl (OpenAIError Timeout)"
proof -
  have b: "embeddings_create busy_once_ext = retrying_create 2 busy_once"
    by (simp add: busy_once_ext_def sample_ext_def)
  have t: "embeddings_create always_timeout_ext = retrying_create 2 always_timeout"
    by (simp add: always_timeout_ext_def sample_ext_def)
  have w0: "emb_calls empty_world = 0" by (simp add: empty_world_def)
  have b0: "busy_once 0 ''spills'' 0 = Inl (OpenAIError RateLimit)"
    and b1: "busy_once 0 ''spills'' 1 = Inr [1]"
    by (simp_all add: busy_once_def)
  have tr: "is_transient (OpenAIError RateLimit)" "is_transient (OpenAIError Timeout)"
    by (simp_all add: is_transient_def transient_def)
  note B = get_embedding_retries[OF b, of empty_world "''spills''", unfolded w0]
  note T = get_embedding_retries[OF t, of empty_world "''spills''" 5 "Some [valid_docx]", unfolded w0]
  have hb: "(1::nat) \<le> 2 \<and> (\<forall>j<1. \<exists>e. busy_once 0 ''spills'' j = Inl e \<and> is_transient e) \<and>
      busy_once 0 ''spills'' 1 = Inr [1]"
    using b0 b1 tr by simp
  from B[THEN conjunct1, rule_format, OF hb]
  have g1: "fst (get_embedding busy_once_ext ''spills'' empty_world) = Inr [1]"
    and d1: "snd (with_retries (busy_once 0 ''spills'') 2 0) = [1]"
    by (simp_all add: backoff_delay_def)
  have g2: "fst (get_embedding always_timeout_ext ''spills'' empty_world) = Inl (OpenAIError Timeout)"
    by code_simp
  from T[THEN conjunct2, THEN conjunct1, rule_format, OF conjI[OF g2 tr(2)]]
  have d2: "snd (with_retries (always_timeout 0 ''spills'') 2 0) = [1, 2]"
    by (simp add: backoff_delay_def numeral_2_eq_2)
  from T[THEN conjunct2, THEN conjunct2, THEN conjunct2, THEN conjunct1, rule_format, OF g2]
  have q: "fst (query_rag always_timeout_ext ''spills'' 5 empty_world) = Inl (OpenAIError Timeout)" .
  have l: "fst (load_documents_internal always_timeout_ext (Some [valid_docx]) empty_world) =
     Inl (OpenAIError Timeout)"
    by code_simp
  show ?thesis
    by (intro conjI b b0 tr(1) b1 g1 d1 t g2 tr(2) d2 q l)
qed

section \<open>A query that finds nothing\<close>

lemma get_embedding_chat_calls: "chat_calls (snd (get_embedding ex text w)) = chat_calls w"
  by (simp add: get_embedding_def)

lemma get_db_connection_chat_calls: "chat_calls (snd (get_db_connection ex w)) = chat_calls w"
  by (simp add: get_db_connection_def)

lemma search_similar_chunks_chat_calls:
  "chat_calls (snd (search_similar_chunks ex qe top_k th w)) = chat_calls w"
  using get_db_connection_chat_calls[of ex w]
  by (auto simp: search_similar_chunks_def split: prod.splits sum.splits)

text \<open>
  C6. When the embedding of the query succeeds and the search returns no chunk,
  \<open>query_rag\<close> returns the fixed answer and no source; it raises nothing and the
  generation service has received no call.
\<close>

theorem query_rag_no_results:
  assumes "get_embedding ex user_query w = (Inr query_embedding, w1)"
    and "search_similar_chunks ex query_embedding top_k 0 w1 = (Inr [], w2)"
  shows "query_rag ex user_query top_k w =
           (Inr \<lparr>answer = ''I couldn't find any relevant information in the documents to answer your question.'',
                 sources = []\<rparr>, w2) \<and>
         chat_calls w2 = chat_calls w"
proof -
  have "chat_calls w1 = chat_calls w"
    using get_embedding_chat_calls[of ex user_query w] assms(1) by simp
  moreover have "chat_calls w2 = chat_calls w1"
    using search_similar_chunks_chat_calls[of ex query_embedding top_k 0 w1] assms(2) by simp
  ultimately show ?thesis
    using assms by (simp add: query_rag_def no_information_def)
qed

theorem query_rag_no_results_witness:
  "get_embedding sample_ext ''gloves?'' empty_world = (Inr [1], empty_world\<lparr>emb_calls := 1\<rparr>) \<and>
   search_similar_chunks sample_ext [1] 5 0 (empty_world\<lparr>emb_calls := 1\<rparr>) =
     (Inr [], empty_world\<lparr>emb_calls := 1, connect_attempts := 1\<rparr>) \<and>
   query_rag sample_ext ''gloves?'' 5 empty_world =
     (Inr \<lparr>answer = ''I couldn't find any relevant information in the documents to answer your question.'',
           sources = []\<rparr>, empty_world\<lparr>emb_calls := 1, connect_attempts := 1\<rparr>) \<and>
   chat_calls (empty_world\<lparr>emb_calls := 1, connect_attempts := 1\<rparr>) = chat_calls empty_world"
proof -
  have a: "get_embedding sample_ext ''gloves?'' empty_world = (Inr [1], empty_world\<lparr>emb_calls := 1\<rparr>)"
    by (simp add: get_embedding_def sample_ext_def empty_world_def)
  have b: "search_similar_chunks sample_ext [1] 5 0 (empty_world\<lparr>emb_calls := 1\<rparr>) =
     (Inr [], empty_world\<lparr>emb_calls := 1, connect_attempts := 1\<rparr>)"
    by (simp add: search_similar_chunks_def get_db_connection_def sample_ext_def empty_world_def)
  show ?thesis using a b query_rag_no_results[OF a b] by simp
qed

section \<open>The ingestion run\<close>

lemma embed_loop_result:
  "embed_loop ex cs embeddings w = (Inr embeddings', w') \<Longrightarrow>
   length embeddings' = length embeddings + length cs \<and>
   w' = w\<lparr>emb_calls := emb_calls w + length cs\<rparr>"
proof (induction cs arbitrary: embeddings w)
  case Nil
  then show ?case by simp
next
  case (Cons c cs)
  obtain r w1 where g: "get_embedding ex (chunk_text c) w = (r, w1)" by (cases "get_embedding ex (chunk_text c) w")
  then have w1: "w1 = w\<lparr>emb_calls := emb_calls w + 1\<rparr>" by (simp add: get_embedding_def)
  from Cons.prems g obtain v where r: "r = Inr v"
    and rest: "embed_loop ex cs (embeddings @ [v]) w1 = (Inr embeddings', w')"
    by (cases r) auto
  from Cons.IH[OF rest] show ?case by (simp add: w1)
qed

lemma build_values_texts:
  "map fst (build_values ex zs rows) =
     map fst rows @
     filter (\<lambda>t. t \<noteq> []) (map (\<lambda>z. strip (remove_char (CHR 0x00) (chunk_text (fst z)))) zs)"
  by (induction zs arbitrary: rows) (auto simp: Let_def)

lemma store_embeddings_result:
  assumes "store_embeddings ex chunks embeddings w = (Inr u, w')"
  shows "length chunks = length embeddings \<and>
         emb_calls w' = emb_calls w \<and>
         document_chunks w' = document_chunks w @ build_values ex (zip chunks embeddings) []"
  using assms
  by (auto simp: store_embeddings_def get_db_connection_def Let_def
      split: if_splits option.splits)

text \<open>
  C1 (amended). In a run that succeeds, a chunk whose text is empty after the null bytes
  are removed and the text is stripped is left out of the rows that are written. It has
  been sent to the embedding service all the same, for every chunk of the scan costs one
  call; and the count that the run returns, which the endpoint reports as
  \<open>chunks_processed\<close>, is the number of chunks of the scan, the dropped ones included.
\<close>

theorem load_documents_internal_counts:
  assumes "load_documents_internal ex data_folder w = (Inr (n, fp), w')"
  shows "n = length (fst (scan_and_process_documents ex data_folder)) \<and>
         fp = snd (scan_and_process_documents ex data_folder) \<and>
         emb_calls w' = emb_calls w + n \<and>
         (\<exists>values. document_chunks w' = document_chunks w @ values \<and>
            map fst values =
              filter (\<lambda>t. t \<noteq> [])
                (map (\<lambda>c. strip (remove_char (CHR 0x00) (chunk_text c)))
                   (fst (scan_and_process_documents ex data_folder)))) \<and>
         (\<forall>resp w''. load_documents ex data_folder w = (Inr resp, w'') \<longrightarrow>
            chunks_processed resp = length (fst (scan_and_process_documents ex data_folder)))"
proof -
  obtain all_chunks files where scan: "scan_and_process_documents ex data_folder = (all_chunks, files)"
    by (cases "scan_and_process_documents ex data_folder")
  have resp: "chunks_processed resp = n"
    if "load_documents ex data_folder w = (Inr resp, w'')" for resp w''
    using that assms by (auto simp: load_documents_def split: if_splits)
  show ?thesis
  proof (cases "all_chunks = []")
    case True
    with assms scan have "n = 0" "fp = files" "w' = w"
      by (simp_all add: load_documents_internal_def)
    with True scan resp show ?thesis by simp
  next
    case False
    from assms scan False obtain embeddings w1 u where
      e: "embed_loop ex all_chunks [] w = (Inr embeddings, w1)"
      and s: "store_embeddings ex all_chunks embeddings w1 = (Inr u, w')"
      and n: "n = length all_chunks" "fp = files"
      by (auto simp: load_documents_internal_def split: prod.splits sum.splits)
    from embed_loop_result[OF e] have l: "length embeddings = length all_chunks"
      and w1: "w1 = w\<lparr>emb_calls := emb_calls w + length all_chunks\<rparr>" by simp_all
    from store_embeddings_result[OF s] have
      c: "emb_calls w' = emb_calls w1"
      and d: "document_chunks w' = document_chunks w1 @ build_values ex (zip all_chunks embeddings) []"
      by simp_all
    have "map fst (build_values ex (zip all_chunks embeddings) []) =
        filter (\<lambda>t. t \<noteq> []) (map (\<lambda>c. strip (remove_char (CHR 0x00) (chunk_text c))) all_chunks)"
    proof -
      have "map (\<lambda>z. strip (remove_char (CHR 0x00) (chunk_text (fst z)))) (zip all_chunks embeddings) =
            map (\<lambda>c. strip (remove_char (CHR 0x00) (chunk_text c))) (map fst (zip all_chunks embeddings))"
        by simp
      also have "map fst (zip all_chunks embeddings) = all_chunks" using l by simp
      finally show ?thesis by (simp add: build_values_texts)
    qed
    with d w1 have "\<exists>values. document_chunks w' = document_chunks w @ values \<and>
        map fst values = filter (\<lambda>t. t \<noteq> [])
          (map (\<lambda>c. strip (remove_char (CHR 0x00) (chunk_text c))) all_chunks)"
      by simp
    with n c w1 scan resp show ?thesis by simp
  qed
qed

theorem load_documents_internal_counts_witness:
  "load_documents_internal sample_ext (Some [nul_page_pdf]) empty_world =
     (Inr (2, 1),
      \<lparr>emb_calls = 2, chat_calls = 0, connect_attempts = 1,
       document_chunks = [(''Lockout procedure'', ''[1.0]'', ''scan.pdf'', None, Some 1, 0,
          sample_dumps [(''file_path'', ''scan.pdf''), (''file_type'', ''pdf'')])]\<rparr>) \<and>
   2 = length (fst (scan_and_process_documents sample_ext (Some [nul_page_pdf]))) \<and>
   map (\<lambda>c. strip (remove_char (CHR 0x00) (chunk_text c)))
     (fst (scan_and_process_documents sample_ext (Some [nul_page_pdf]))) = [''Lockout procedure'', []]"
proof -
  have h: "load_documents_internal sample_ext (Some [nul_page_pdf]) empty_world =
     (Inr (2, 1),
      \<lparr>emb_calls = 2, chat_calls = 0, connect_attempts = 1,
       document_chunks = [(''Lockout procedure'', ''[1.0]'', ''scan.pdf'', None, Some 1, 0,
          sample_dumps [(''file_path'', ''scan.pdf''), (''file_type'', ''pdf'')])]\<rparr>)"
    by code_simp
  have t: "map (\<lambda>c. strip (remove_char (CHR 0x00) (chunk_text c)))
     (fst (scan_and_process_documents sample_ext (Some [nul_page_pdf]))) = [''Lockout procedure'', []]"
    by code_simp
  show ?thesis using h t load_documents_internal_counts[OF h] by simp
qed

text \<open>
  C1 as stated fails: a PDF whose second page holds null bytes only gives two chunks; both
  are sent to the embedding service, one row is written, and the count is 2.
\<close>

theorem chunks_processed_counterexample:
  "load_documents sample_ext (Some [nul_page_pdf]) empty_world =
     (Inr \<lparr>message = ''Documents loaded successfully'', chunks_processed = 2, files_processed = 1\<rparr>,
      \<lparr>emb_calls = 2, chat_calls = 0, connect_attempts = 1,
       document_chunks = [(''Lockout procedure'', ''[1.0]'', ''scan.pdf'', None, Some 1, 0,
          sample_dumps [(''file_path'', ''scan.pdf''), (''file_type'', ''pdf'')])]\<rparr>)"
  by code_simp

section \<open>Citations\<close>

lemma set_first_occurrences: "set (first_occurrences xs) = set xs"
proof (induction xs rule: first_occurrences.induct)
  case 1
  then show ?case by simp
next
  case (2 x xs)
  then show ?case by auto
qed

lemma distinct_first_occurrences: "distinct (first_occurrences xs)"
proof (induction xs rule: first_occurrences.induct)
  case 1
  then show ?case by simp
next
  case (2 x xs)
  then show ?case by (simp add: set_first_occurrences)
qed

lemma context_loop_sources:
  "distinct srcs \<Longrightarrow>
   snd (context_loop chunks parts srcs) =
     srcs @ first_occurrences (filter (\<lambda>s. s \<notin> set srcs) (map format_source_citation chunks))"
proof (induction chunks arbitrary: parts srcs)
  case Nil
  then show ?case by simp
next
  case (Cons c cs)
  let ?s = "format_source_citation c"
  show ?case
  proof (cases "?s \<in> set srcs")
    case True
    with Cons show ?thesis by (simp add: Let_def)
  next
    case False
    have f: "filter (\<lambda>s. s \<notin> set (srcs @ [?s])) (map format_source_citation cs) =
             filter (\<lambda>y. y \<noteq> ?s) (filter (\<lambda>s. s \<notin> set srcs) (map format_source_citation cs))"
      by (simp add: conj_commute)
    from False Cons.prems have "distinct (srcs @ [?s])" by simp
    from Cons.IH[OF this] have ih: "snd (context_loop cs ps (srcs @ [?s])) =
        (srcs @ [?s]) @ first_occurrences (filter (\<lambda>y. y \<noteq> ?s)
          (filter (\<lambda>s. s \<notin> set srcs) (map format_source_citation cs)))" for ps
      unfolding f .
    have "snd (context_loop (c # cs) parts srcs) =
        snd (context_loop cs (parts @ [''[Source: '' @ ?s @ '']'' @ [CHR 0x0A] @ chunk_text c]) (srcs @ [?s]))"
      using False by (simp add: Let_def)
    also have "\<dots> = (srcs @ [?s]) @ first_occurrences (filter (\<lambda>y. y \<noteq> ?s)
          (filter (\<lambda>s. s \<notin> set srcs) (map format_source_citation cs)))"
      by (rule ih)
    also have "\<dots> = srcs @ first_occurrences (filter (\<lambda>s. s \<notin> set srcs)
          (map format_source_citation (c # cs)))"
      using False by simp
    finally show ?thesis .
  qed
qed

lemma format_source_citation_fields:
  fixes c :: "'a chunk_scheme" and c' :: "'b chunk_scheme"
  assumes "folder_path c = folder_path c'" "source_file c = source_file c'"
    "page_number c = page_number c'"
  shows "format_source_citation c = format_source_citation c'"
  using assms by (simp add: format_source_citation_def)

lemma format_source_citation_parts:
  assumes "folder_path c \<noteq> Some []" "page_number c \<noteq> Some 0"
  shows "format_source_citation c =
     join '' > ''
       ((case folder_path c of None \<Rightarrow> [] | Some fp \<Rightarrow> [fp]) @ [source_file c] @
        (case page_number c of None \<Rightarrow> [] | Some n \<Rightarrow> [''Page '' @ str_nat n]))"
  using assms by (auto simp: format_source_citation_def split: option.splits)

lemma query_rag_sources:
  assumes "query_rag ex q k w = (Inr r, w')"
    and "get_embedding ex q w = (Inr qe, w1)"
    and "search_similar_chunks ex qe k 0 w1 = (Inr similar, w2)"
  shows "sources r = first_occurrences (map format_source_citation similar)"
proof (cases "similar = []")
  case True
  with assms show ?thesis by (auto simp: query_rag_def)
next
  case False
  have "snd (context_loop similar [] []) = first_occurrences (map format_source_citation similar)"
    using context_loop_sources[of "[]" similar "[]"] by simp
  with assms False show ?thesis
    by (auto simp: query_rag_def Let_def split: prod.splits sum.splits)
qed

text \<open>
  C7. The citation of a chunk depends on its folder path, file name and page number only:
  two chunks that agree on them have the same citation, be they chunks of the ingestion or
  of the search. For a chunk of the data model (a folder path that is absent or not empty,
  a page number that is absent or counts from 1) it is the fields that are present, joined
  in that order by \<open>>\<close> between two spaces. The sources of a query result are the citations
  of the retrieved chunks, each once, in the order of first appearance.
\<close>

theorem citations_pure_and_deduplicated:
  fixes c :: "'a chunk_scheme" and c' :: "'b chunk_scheme"
  shows "(folder_path c = folder_path c' \<and> source_file c = source_file c' \<and>
          page_number c = page_number c' \<longrightarrow>
            format_source_citation c = format_source_citation c') \<and>
         (folder_path c \<noteq> Some [] \<and> page_number c \<noteq> Some 0 \<longrightarrow>
            format_source_citation c =
              join '' > ''
                ((case folder_path c of None \<Rightarrow> [] | Some fp \<Rightarrow> [fp]) @ [source_file c] @
                 (case page_number c of None \<Rightarrow> [] | Some n \<Rightarrow> [''Page '' @ str_nat n]))) \<and>
         (query_rag ex q k w = (Inr r, w') \<and> get_embedding ex q w = (Inr qe, w1) \<and>
          search_similar_chunks ex qe k 0 w1 = (Inr similar, w2) \<longrightarrow>
            distinct (sources r) \<and>
            sources r = first_occurrences (map format_source_citation similar))"
  using format_source_citation_fields[of c c'] format_source_citation_parts[of c]
    query_rag_sources[of ex q k w r w' qe w1 similar w2] distinct_first_occurrences
  by metis


theorem citations_pure_and_deduplicated_witness:
  "get_embedding found_ext ''gloves?'' empty_world = (Inr [1], empty_world\<lparr>emb_calls := 1\<rparr>) \<and>
   search_similar_chunks found_ext [1] 5 0 (empty_world\<lparr>emb_calls := 1\<rparr>) =
     (Inr found_chunks, empty_world\<lparr>emb_calls := 1, connect_attempts := 1\<rparr>) \<and>
   query_rag found_ext ''gloves?'' 5 empty_world =
     (Inr \<lparr>answer = ''See section 2.'', sources = [''hr > sop.docx'', ''scan.pdf > Page 1'']\<rparr>,
      empty_world\<lparr>emb_calls := 1, connect_attempts := 1, chat_calls := 1\<rparr>) \<and>
   map format_source_citation found_chunks =
     [''hr > sop.docx'', ''scan.pdf > Page 1'', ''hr > sop.docx''] \<and>
   distinct [''hr > sop.docx'', ''scan.pdf > Page 1''] \<and>
   [''hr > sop.docx'', ''scan.pdf > Page 1''] = first_occurrences (map format_source_citation found_chunks) \<and>
   format_source_citation (found_chunks ! 0) = format_source_citation (found_chunks ! 2) \<and>
   format_source_citation (found_chunks ! 1) = join '' > '' [''scan.pdf'', ''Page '' @ str_nat 1]"
proof -
  let ?r = "\<lparr>answer = ''See section 2.'', sources = [''hr > sop.docx'', ''scan.pdf > Page 1'']\<rparr>"
  let ?w1 = "empty_world\<lparr>emb_calls := 1\<rparr>"
  let ?w2 = "empty_world\<lparr>emb_calls := 1, connect_attempts := 1\<rparr>"
  let ?w3 = "empty_world\<lparr>emb_calls := 1, connect_attempts := 1, chat_calls := 1\<rparr>"
  have g: "get_embedding found_ext ''gloves?'' empty_world = (Inr [1], ?w1)"
    by code_simp
  have s: "search_similar_chunks found_ext [1] 5 0 ?w1 = (Inr found_chunks, ?w2)"
    by code_simp
  have q: "query_rag found_ext ''gloves?'' 5 empty_world = (Inr ?r, ?w3)"
    by code_simp
  have m: "map format_source_citation found_chunks =
      [''hr > sop.docx'', ''scan.pdf > Page 1'', ''hr > sop.docx'']"
    by code_simp
  note T = citations_pure_and_deduplicated[of "found_chunks ! 0" "found_chunks ! 2"
      found_ext "''gloves?''" 5 empty_world ?r ?w3 "[1]" ?w1 found_chunks ?w2]
  note U = citations_pure_and_deduplicated[of "found_chunks ! 1" "found_chunks ! 1"]
  have h1: "folder_path (found_chunks ! 0) = folder_path (found_chunks ! 2) \<and>
      source_file (found_chunks ! 0) = source_file (found_chunks ! 2) \<and>
      page_number (found_chunks ! 0) = page_number (found_chunks ! 2)"
    by (simp add: found_chunks_def)
  have a: "format_source_citation (found_chunks ! 0) = format_source_citation (found_chunks ! 2)"
    by (rule mp[OF T[THEN conjunct1] h1])
  have h2: "folder_path (found_chunks ! 1) \<noteq> Some [] \<and> page_number (found_chunks ! 1) \<noteq> Some 0"
    by (simp add: found_chunks_def)
  have "format_source_citation (found_chunks ! 1) =
      join '' > ''
        ((case folder_path (found_chunks ! 1) of None \<Rightarrow> [] | Some fp \<Rightarrow> [fp]) @
         [source_file (found_chunks ! 1)] @
         (case page_number (found_chunks ! 1) of None \<Rightarrow> [] | Some n \<Rightarrow> [''Page '' @ str_nat n]))"
    by (rule mp[OF U[THEN conjunct2, THEN conjunct1] h2])
  then have b: "format_source_citation (found_chunks ! 1) =
      join '' > '' [''scan.pdf'', ''Page '' @ str_nat 1]"
    by (simp add: found_chunks_def)
  have cd: "distinct (sources ?r) \<and>
      sources ?r = first_occurrences (map format_source_citation found_chunks)"
    by (rule mp[OF T[THEN conjunct2, THEN conjunct2]]) (intro conjI q g s)
  have c: "distinct [''hr > sop.docx'', ''scan.pdf > Page 1'']"
    using cd[THEN conjunct1] unfolding rag_result.select_convs .
  have d: "[''hr > sop.docx'', ''scan.pdf > Page 1''] =
      first_occurrences (map format_source_citation found_chunks)"
    using cd[THEN conjunct2] unfolding rag_result.select_convs .
  show ?thesis
    by (intro conjI g s q m c d a b)
qed

section \<open>The scan of the data folder\<close>

lemma scan_loop_concat:
  "scan_loop ex entries all_chunks n =
     (all_chunks @ concat (map (process_document ex) (filter supported entries)),
      n + length (filter supported entries))"
  by (induction entries arbitrary: all_chunks n) simp_all

lemma scan_chunks:
  "fst (scan_and_process_documents ex (Some entries)) =
     concat (map (process_document ex) (filter supported entries))"
  by (simp add: scan_and_process_documents_def scan_loop_concat)

lemma scan_files:
  "snd (scan_and_process_documents ex (Some entries)) = length (filter supported entries)"
  by (simp add: scan_and_process_documents_def scan_loop_concat)

lemma process_document_extraction_fails:
  assumes "extraction_fails f"
  shows "process_document ex f = []"
proof -
  have "lower (suffix f) = ''.pdf'' \<and> isl (extract_text_from_pdf f) \<or>
        lower (suffix f) \<noteq> ''.pdf'' \<and> (lower (suffix f) = ''.docx'' \<or> lower (suffix f) = ''.doc'') \<and>
          isl (extract_text_from_docx f)"
    using assms by (auto simp: extraction_fails_def)
  then show ?thesis
    by (auto simp: process_document_def Let_def isl_def)
qed

text \<open>
  C8. A file whose extraction raises gives no chunk and does not stop the scan: the chunks
  of the batch are those of the files before it followed by those of the files after it,
  each file giving the chunks it gives on its own, and the file is counted among the
  files processed.
\<close>

theorem extraction_failure_skipped:
  assumes "extraction_fails bad"
  shows "process_document ex bad = [] \<and>
         fst (scan_and_process_documents ex (Some (before @ bad # after))) =
           fst (scan_and_process_documents ex (Some before)) @
           fst (scan_and_process_documents ex (Some after)) \<and>
         fst (scan_and_process_documents ex (Some (before @ bad # after))) =
           concat (map (process_document ex) (filter supported (before @ after))) \<and>
         snd (scan_and_process_documents ex (Some (before @ bad # after))) =
           snd (scan_and_process_documents ex (Some before)) + (if supported bad then 1 else 0) +
           snd (scan_and_process_documents ex (Some after))"
  using process_document_extraction_fails[OF assms, of ex]
  by (simp add: scan_chunks scan_files)

theorem extraction_failure_skipped_witness:
  "extraction_fails corrupt_pdf \<and>
   process_document sample_ext corrupt_pdf = [] \<and>
   scan_and_process_documents sample_ext (Some ([] @ corrupt_pdf # [valid_docx])) =
     ([\<lparr>chunk_text = ''Wear gloves.'' @ [CHR 0x0A, CHR 0x0A] @ ''Report spills.'',
        source_file = ''sop.docx'', folder_path = Some ''hr'', page_number = None,
        chunk_index = 0,
        metadata = [(''file_path'', ''hr/sop.docx''), (''file_type'', ''docx'')]\<rparr>], 2) \<and>
   fst (scan_and_process_documents sample_ext (Some ([] @ corrupt_pdf # [valid_docx]))) =
     fst (scan_and_process_documents sample_ext (Some [])) @
     fst (scan_and_process_documents sample_ext (Some [valid_docx]))"
proof -
  have h: "extraction_fails corrupt_pdf" by code_simp
  have s: "scan_and_process_documents sample_ext (Some ([] @ corrupt_pdf # [valid_docx])) =
     ([\<lparr>chunk_text = ''Wear gloves.'' @ [CHR 0x0A, CHR 0x0A] @ ''Report spills.'',
        source_file = ''sop.docx'', folder_path = Some ''hr'', page_number = None,
        chunk_index = 0,
        metadata = [(''file_path'', ''hr/sop.docx''), (''file_type'', ''docx'')]\<rparr>], 2)"
    by code_simp
  note T = extraction_failure_skipped[OF h, of sample_ext "[]" "[valid_docx]"]
  show ?thesis
    by (intro conjI h s T[THEN conjunct1] T[THEN conjunct2, THEN conjunct1])
qed

section \<open>The chunk indices\<close>

lemma filter_concat_none:
  assumes "\<And>x c. x \<in> set xs \<Longrightarrow> c \<in> set (blk x) \<Longrightarrow> kf c = key x"
    and "k \<notin> key ` set xs"
  shows "filter (\<lambda>c. kf c = k) (concat (map blk xs)) = []"
  using assms by (induction xs) (auto simp: filter_empty_conv)

lemma filter_concat_distinct:
  assumes "distinct (map key xs)"
    and "\<And>x c. x \<in> set xs \<Longrightarrow> c \<in> set (blk x) \<Longrightarrow> kf c = key x"
  shows "filter (\<lambda>c. kf c = k) (concat (map blk xs)) = [] \<or>
         (\<exists>x \<in> set xs. filter (\<lambda>c. kf c = k) (concat (map blk xs)) = blk x)"
  using assms
proof (induction xs)
  case Nil
  then show ?case by simp
next
  case (Cons x xs)
  show ?case
  proof (cases "key x = k")
    case True
    have "filter (\<lambda>c. kf c = k) (blk x) = blk x"
      using Cons.prems(2)[of x] True by (simp add: filter_id_conv)
    moreover have "k \<notin> key ` set xs" using Cons.prems(1) True by auto
    then have "filter (\<lambda>c. kf c = k) (concat (map blk xs)) = []"
      using Cons.prems(2) by (intro filter_concat_none[of xs blk kf key k]) auto
    ultimately show ?thesis by simp
  next
    case False
    have "filter (\<lambda>c. kf c = k) (blk x) = []"
      using Cons.prems(2)[of x] False by (auto simp: filter_empty_conv)
    moreover have "filter (\<lambda>c. kf c = k) (concat (map blk xs)) = [] \<or>
         (\<exists>y \<in> set xs. filter (\<lambda>c. kf c = k) (concat (map blk xs)) = blk y)"
      using Cons.prems by (intro Cons.IH) auto
    ultimately show ?thesis by auto
  qed
qed

lemma page_chunks_of_index:
  "map chunk_index (page_chunks_of f folder ft pn cs) = [0..<length cs]"
  by (simp add: page_chunks_of_def enumerate_eq_zip map_fst_zip_take comp_def case_prod_unfold)

lemma page_chunks_of_length: "length (page_chunks_of f folder ft pn cs) = length cs"
  by (simp add: page_chunks_of_def)

lemma page_chunks_of_fields:
  "c \<in> set (page_chunks_of f folder ft pn cs) \<Longrightarrow> page_number c = pn \<and> source_file c = basename f"
  by (auto simp: page_chunks_of_def)

lemma page_block_index:
  "map chunk_index (page_block ex f folder ft p) = [0..<length (page_block ex f folder ft p)]"
  by (simp add: page_block_def page_chunks_of_index page_chunks_of_length)

lemma page_block_fields:
  "c \<in> set (page_block ex f folder ft p) \<Longrightarrow> page_number c = snd p \<and> source_file c = basename f"
  unfolding page_block_def by (rule page_chunks_of_fields)

lemma page_loop_blocks:
  "\<exists>seen rest. pages = seen @ rest \<and>
     page_loop ex f folder ft pages chunks = chunks @ concat (map (page_block ex f folder ft) seen)"
proof (induction pages arbitrary: chunks)
  case Nil
  then show ?case by simp
next
  case (Cons p pages)
  obtain tx pn where p: "p = (tx, pn)" by (cases p)
  show ?case
  proof (cases "chunk_text_by_tokens ex tx 1000 200")
    case (Inl e)
    then have "page_loop ex f folder ft (p # pages) chunks = chunks @ concat (map (page_block ex f folder ft) [])"
      by (simp add: p)
    then show ?thesis by (metis append_Nil)
  next
    case (Inr cs)
    let ?b = "page_chunks_of f folder ft pn cs"
    obtain seen rest where d: "pages = seen @ rest"
      "page_loop ex f folder ft pages (chunks @ ?b) = (chunks @ ?b) @ concat (map (page_block ex f folder ft) seen)"
      using Cons.IH[of "chunks @ ?b"] by blast
    have b: "page_block ex f folder ft p = ?b" by (simp add: page_block_def p Inr)
    have "p # pages = (p # seen) @ rest" using d(1) by simp
    moreover have "page_loop ex f folder ft (p # pages) chunks =
        chunks @ concat (map (page_block ex f folder ft) (p # seen))"
      using d(2) b by (simp add: p Inr)
    ultimately show ?thesis by blast
  qed
qed

lemma pdf_page_loop_numbers:
  "pdf_page_loop (enumerate k ps) pages = Inr pages' \<Longrightarrow>
   \<exists>ns. map snd pages' = map snd pages @ map Some ns \<and> distinct ns \<and> (\<forall>n \<in> set ns. k \<le> n)"
proof (induction ps arbitrary: k pages)
  case Nil
  then show ?case by auto
next
  case (Cons a ps)
  show ?case
  proof (cases a)
    case (Inl e)
    with Cons.prems show ?thesis by simp
  next
    case (Inr tx)
    show ?thesis
    proof (cases "strip tx \<noteq> []")
      case True
      with Cons.prems Inr have "pdf_page_loop (enumerate (Suc k) ps) (pages @ [(tx, Some k)]) = Inr pages'"
        by simp
      from Cons.IH[OF this] obtain ns where ns:
        "map snd pages' = map snd (pages @ [(tx, Some k)]) @ map Some ns" "distinct ns"
        "\<forall>n \<in> set ns. Suc k \<le> n" by blast
      have "map snd pages' = map snd pages @ map Some (k # ns)" using ns(1) by simp
      moreover have "distinct (k # ns)" using ns(2,3) by auto
      moreover have "\<forall>n \<in> set (k # ns). k \<le> n" using ns(3) by auto
      ultimately show ?thesis by blast
    next
      case False
      with Cons.prems Inr have "pdf_page_loop (enumerate (Suc k) ps) pages = Inr pages'"
        by simp
      from Cons.IH[OF this] obtain ns where ns:
        "map snd pages' = map snd pages @ map Some ns" "distinct ns"
        "\<forall>n \<in> set ns. Suc k \<le> n" by blast
      then have "\<forall>n \<in> set ns. k \<le> n" by auto
      with ns show ?thesis by blast
    qed
  qed
qed

lemma extract_text_from_pdf_distinct:
  assumes "extract_text_from_pdf f = Inr pages"
  shows "distinct (map snd pages)"
proof -
  from assms obtain ps where "pdf_page_loop (enumerate 1 ps) [] = Inr pages"
    by (auto simp: extract_text_from_pdf_def split: sum.splits)
  from pdf_page_loop_numbers[OF this] obtain ns where
    "map snd pages = map Some ns" "distinct ns" by auto
  then show ?thesis by (simp add: distinct_map)
qed

lemma extract_text_from_docx_distinct:
  assumes "extract_text_from_docx f = Inr pages"
  shows "distinct (map snd pages)"
  using assms by (auto simp: extract_text_from_docx_def Let_def split: sum.splits if_splits)

lemma process_document_blocks:
  "\<exists>folder ft seen. distinct (map snd seen) \<and>
     process_document ex f = concat (map (page_block ex f folder ft) seen)"
proof -
  have nil: "distinct (map snd ([] :: page_data list)) \<and>
      [] = concat (map (page_block ex f None [] ) [])" by simp
  have loop: "\<exists>seen. distinct (map snd seen) \<and>
      page_loop ex f folder ft pages [] = concat (map (page_block ex f folder ft) seen)"
    if "distinct (map snd pages)" for folder ft pages
  proof -
    obtain seen rest where d: "pages = seen @ rest"
      "page_loop ex f folder ft pages [] = [] @ concat (map (page_block ex f folder ft) seen)"
      using page_loop_blocks[of pages ex f folder ft "[]"] by blast
    from that d(1) have "distinct (map snd seen)" by simp
    with d(2) show ?thesis by auto
  qed
  let ?folder = "if parent f \<noteq> ''.'' then Some (parent f) else None"
  show ?thesis
  proof (cases "lower (suffix f) = ''.pdf''")
    case True
    show ?thesis
    proof (cases "extract_text_from_pdf f")
      case (Inl e)
      with True have "process_document ex f = []" by (simp add: process_document_def)
      with nil show ?thesis by metis
    next
      case (Inr pages)
      with True have "process_document ex f = page_loop ex f ?folder ''pdf'' pages []"
        by (simp add: process_document_def Let_def)
      with loop[OF extract_text_from_pdf_distinct[OF Inr], of ?folder "''pdf''"]
      show ?thesis by metis
    qed
  next
    case False
    show ?thesis
    proof (cases "lower (suffix f) = ''.docx'' \<or> lower (suffix f) = ''.doc''")
      case docx: True
      show ?thesis
      proof (cases "extract_text_from_docx f")
        case (Inl e)
        with False docx have "process_document ex f = []" by (auto simp: process_document_def)
        with nil show ?thesis by metis
      next
        case (Inr pages)
        with False docx have "process_document ex f = page_loop ex f ?folder ''docx'' pages []"
          by (auto simp: process_document_def Let_def)
        with loop[OF extract_text_from_docx_distinct[OF Inr], of ?folder "''docx''"]
        show ?thesis by metis
      qed
    next
      case other: False
      with False have "process_document ex f = []" by (simp add: process_document_def)
      with nil show ?thesis by metis
    qed
  qed
qed

lemma process_document_source_file:
  "c \<in> set (process_document ex f) \<Longrightarrow> source_file c = basename f"
  using process_document_blocks[of ex f] by (auto dest: page_block_fields)

lemma process_document_page_index:
  "map chunk_index (filter (\<lambda>c. page_number c = pn) (process_document ex f)) =
     [0..<length (filter (\<lambda>c. page_number c = pn) (process_document ex f))]"
proof -
  obtain folder ft seen where d: "distinct (map snd seen)"
    "process_document ex f = concat (map (page_block ex f folder ft) seen)"
    using process_document_blocks[of ex f] by blast
  have "filter (\<lambda>c. page_number c = pn) (concat (map (page_block ex f folder ft) seen)) = [] \<or>
      (\<exists>p \<in> set seen. filter (\<lambda>c. page_number c = pn) (concat (map (page_block ex f folder ft) seen)) =
         page_block ex f folder ft p)"
    using d(1) by (rule filter_concat_distinct) (simp add: page_block_fields)
  then show ?thesis unfolding d(2) using page_block_index by (metis list.map_disc_iff list.size(3) upt_0)
qed


lemma scan_page_index:
  assumes "distinct (map basename (filter supported entries))"
  shows "map chunk_index
           (chunks_of_page sf pn (concat (map (process_document ex) (filter supported entries)))) =
         [0..<length (chunks_of_page sf pn (concat (map (process_document ex) (filter supported entries))))]"
proof -
  let ?all = "concat (map (process_document ex) (filter supported entries))"
  have split: "chunks_of_page sf pn xs =
      filter (\<lambda>c. page_number c = pn) (filter (\<lambda>c. source_file c = sf) xs)" for xs
    by (simp add: chunks_of_page_def)
  have "filter (\<lambda>c. source_file c = sf) ?all = [] \<or>
      (\<exists>f \<in> set (filter supported entries).
         filter (\<lambda>c. source_file c = sf) ?all = process_document ex f)"
    using assms by (rule filter_concat_distinct) (rule process_document_source_file)
  then show ?thesis
  proof
    assume "filter (\<lambda>c. source_file c = sf) ?all = []"
    then show ?thesis by (simp add: split)
  next
    assume "\<exists>f \<in> set (filter supported entries).
         filter (\<lambda>c. source_file c = sf) ?all = process_document ex f"
    then obtain f where "filter (\<lambda>c. source_file c = sf) ?all = process_document ex f" by blast
    then show ?thesis by (simp add: split process_document_page_index)
  qed
qed

text \<open>
  C9 (amended). The chunks that one file gives for one page number carry the indices
  0, 1, 2, ... in the order of the chunking. For the chunks of a whole run that carry a
  given pair of file name and page number the same holds when no two of the processed
  files have the same file name: \<open>source_file\<close> is the name without the folder.
\<close>

theorem chunk_index_contiguous:
  assumes "distinct_names data_folder"
  shows "map chunk_index (chunks_of_page sf pn (fst (scan_and_process_documents ex data_folder))) =
           [0..<length (chunks_of_page sf pn (fst (scan_and_process_documents ex data_folder)))] \<and>
         map chunk_index (filter (\<lambda>c. page_number c = pn) (process_document ex f)) =
           [0..<length (filter (\<lambda>c. page_number c = pn) (process_document ex f))]"
proof (cases data_folder)
  case None
  then show ?thesis
    by (simp add: scan_and_process_documents_def chunks_of_page_def process_document_page_index)
next
  case (Some entries)
  with assms have "distinct (map basename (filter supported entries))"
    by (simp add: distinct_names_def)
  from scan_page_index[OF this] Some show ?thesis
    by (simp add: scan_chunks process_document_page_index)
qed

theorem chunk_index_contiguous_witness:
  "distinct_names (Some [valid_docx, nul_page_pdf, corrupt_pdf]) \<and>
   map chunk_text (chunks_of_page ''scan.pdf'' (Some 1)
     (fst (scan_and_process_documents halving_ext (Some [valid_docx, nul_page_pdf, corrupt_pdf])))) =
     [''Lockout '', ''procedure''] \<and>
   map chunk_index (chunks_of_page ''scan.pdf'' (Some 1)
     (fst (scan_and_process_documents halving_ext (Some [valid_docx, nul_page_pdf, corrupt_pdf])))) =
     [0..<2]"
proof -
  have h: "distinct_names (Some [valid_docx, nul_page_pdf, corrupt_pdf])" by code_simp
  have t: "map chunk_text (chunks_of_page ''scan.pdf'' (Some 1)
     (fst (scan_and_process_documents halving_ext (Some [valid_docx, nul_page_pdf, corrupt_pdf])))) =
     [''Lockout '', ''procedure'']" by code_simp
  have "length (chunks_of_page ''scan.pdf'' (Some 1)
     (fst (scan_and_process_documents halving_ext (Some [valid_docx, nul_page_pdf, corrupt_pdf])))) = 2"
    using arg_cong[OF t, of length] by simp
  with chunk_index_contiguous[OF h, of "''scan.pdf''" "Some 1" halving_ext]
  have i: "map chunk_index (chunks_of_page ''scan.pdf'' (Some 1)
     (fst (scan_and_process_documents halving_ext (Some [valid_docx, nul_page_pdf, corrupt_pdf])))) =
     [0..<2]" by simp
  show ?thesis by (intro conjI h t i)
qed

text \<open>
  C9 as stated fails: two files of the same name in two folders give, for the pair of that
  name and page 1, two chunks that both carry the index 0.
\<close>

theorem chunk_index_same_name_counterexample:
  "map chunk_index (chunks_of_page ''readme.pdf'' (Some 1)
     (fst (scan_and_process_documents sample_ext (Some [readme_a, readme_b])))) = [0, 0] \<and>
   map folder_path (chunks_of_page ''readme.pdf'' (Some 1)
     (fst (scan_and_process_documents sample_ext (Some [readme_a, readme_b])))) = [Some ''a'', Some ''b'']"
  by code_simp

section \<open>The chunking call\<close>




end
